theory Spec2Isabelle
  imports Main "HOL-Library.AList"
begin

section \<open>Python values, errors and the object store\<close>

text \<open>
  The program is the class \<open>CitationNetworkExplorer\<close> of
  \<open>src/CitationNetworkExplorer.py\<close>. Its methods mutate the instance and objects the
  instance shares with others (the default argument \<open>documents = []\<close> of
  \<open>__init__\<close>, the default argument \<open>flags={}\<close> of \<open>pull_abstract\<close>), so
  list and dict objects live in a store and are named by references.
  Exceptions are values: every method returns the exception that leaves it (if any)
  together with the state it leaves behind.
\<close>

type_synonym ref = nat

datatype pyerror =
  RemoteFetchError | TypeError | AttributeError | KeyError | ValueError
  | FileNotFoundError | UnpicklingError | NetworkXError | NetworkXNoPath | NodeNotFound

datatype pyval = PyNone | PyBool bool | PyInt int | PyStr string

text \<open>Python's \<open>==\<close> on these values: \<open>True == 1\<close> and \<open>False == 0\<close>.\<close>

fun py_eq :: "pyval \<Rightarrow> pyval \<Rightarrow> bool" where
  "py_eq (PyBool b) (PyInt i) = (i = (if b then 1 else 0))"
| "py_eq (PyInt i) (PyBool b) = (i = (if b then 1 else 0))"
| "py_eq v w = (v = w)"

text \<open>A dict with string keys, in insertion order.\<close>

type_synonym pydict = "(string \<times> pyval) list"

text \<open>
  A value in the attribute dict of a graph node: a plain value, or a reference to a dict
  object (what \<open>add_node(eid, attr=flags)\<close> stores under the key \<open>attr\<close>).
\<close>

datatype attrval = Val pyval | DictRef ref

type_synonym attrs = "(string \<times> attrval) list"

text \<open>\<open>d[attribute] == value\<close> for a plain \<open>value\<close>: a dict never equals one.\<close>

fun attr_eq :: "attrval \<Rightarrow> pyval \<Rightarrow> bool" where
  "attr_eq (Val v) w = py_eq v w"
| "attr_eq (DictRef r) w = False"

section \<open>The records of the remote source\<close>

text \<open>
  What the code reads of a pybliometrics \<open>AbstractRetrieval\<close> object: \<open>eid\<close>,
  \<open>coverDate\<close>, \<open>references\<close> (or None) with each reference's \<open>id\<close>,
  \<open>authors\<close> (or None) with \<open>auid\<close> and \<open>indexed_name\<close>, and the two quota
  readings, each a string or None.
\<close>

record reference =
  reference_id :: string

record author =
  auid :: int
  indexed_name :: string

record abstract =
  eid :: string
  coverDate :: string
  references :: "reference list option"
  authors :: "author list option"
  key_remaining_quota :: "string option"
  key_reset_time :: "string option"

text \<open>
  The remote source: \<open>AbstractRetrieval(eid, view='FULL')\<close> and
  \<open>AuthorRetrieval(auid, view='LIGHT').get_document_eids()\<close>, each returning or raising.
\<close>

record remote =
  AbstractRetrieval :: "string \<Rightarrow> pyerror + abstract"
  AuthorRetrieval :: "string \<Rightarrow> pyerror + string list option"

section \<open>networkx.DiGraph\<close>

text \<open>
  A DiGraph is its node dict (node to attribute dict, in insertion order) and its edges
  (no parallel edges; the edges of this program carry no attributes).
\<close>

record 'n digraph =
  node_data :: "('n \<times> attrs) list"
  edge_list :: "('n \<times> 'n) list"

definition empty_graph :: "'n digraph" where
  "empty_graph = \<lparr>node_data = [], edge_list = []\<rparr>"

definition has_node :: "'n digraph \<Rightarrow> 'n \<Rightarrow> bool" where
  "has_node g n = (map_of (node_data g) n \<noteq> None)"

definition dict_update :: "attrs \<Rightarrow> attrs \<Rightarrow> attrs" where
  "dict_update new d = fold (\<lambda>(k, v). AList.update k v) new d"

text \<open>\<open>G.add_node(n, **new)\<close>: a new node gets \<open>new\<close>, a known one has its dict updated.\<close>

definition add_node :: "'n \<Rightarrow> attrs \<Rightarrow> 'n digraph \<Rightarrow> 'n digraph" where
  "add_node n new g =
     (case map_of (node_data g) n of
        None \<Rightarrow> g\<lparr>node_data := node_data g @ [(n, dict_update new [])]\<rparr>
      | Some d \<Rightarrow> g\<lparr>node_data := AList.update n (dict_update new d) (node_data g)\<rparr>)"

text \<open>\<open>G.add_edge(u, v)\<close>: missing end points become nodes with an empty dict.\<close>

definition ensure_node :: "'n \<Rightarrow> 'n digraph \<Rightarrow> 'n digraph" where
  "ensure_node n g = (if has_node g n then g else g\<lparr>node_data := node_data g @ [(n, [])]\<rparr>)"

definition add_edge :: "'n \<Rightarrow> 'n \<Rightarrow> 'n digraph \<Rightarrow> 'n digraph" where
  "add_edge u v g =
     (let g1 = ensure_node v (ensure_node u g)
      in if (u, v) \<in> set (edge_list g1) then g1
         else g1\<lparr>edge_list := edge_list g1 @ [(u, v)]\<rparr>)"

definition in_degree :: "'n digraph \<Rightarrow> 'n \<Rightarrow> nat" where
  "in_degree g n = length (filter (\<lambda>e. snd e = n) (edge_list g))"

section \<open>The session object and the store\<close>

text \<open>
  The third kind of value \<open>target_depth\<close> can hold: \<open>add_documents\<close> takes
  \<open>target_depth = False\<close> by default and an int from \<open>compile_graphs\<close>, and
  \<open>pull_author\<close> calls \<open>self.add_documents(newdocs, flags)\<close>, which puts its flags
  dict into that position.
\<close>

datatype pyarg = ArgFalse | ArgInt int | ArgDict ref

datatype event = Call string int | Fetch string | Print string

text \<open>
  A node of the authorship graph is a document's eid (a str) or an author's auid (an int).
\<close>

type_synonym akey = "string + int"

text \<open>
  What a checkpoint file holds: bytes that do not unpickle, or a dict with some of the keys
  \<open>documents\<close>, \<open>authorship\<close>, \<open>citations\<close>, together with the dict objects
  the pickled graph refers to (pickle writes every object reachable from the bundle).
\<close>

datatype pickled =
  Corrupt
  | Bundle "abstract list option" "akey digraph option" "string digraph option"
      "ref \<Rightarrow> pydict" ref

text \<open>
  The fields of the instance (\<open>documents\<close> is a reference to a list object), the store
  of list and dict objects with its next free reference, the checkpoint files by path,
  and the trace of what the run did (calls of \<open>pull_abstract\<close>, requests to the remote
  source, lines printed); the program never reads the trace.
\<close>

record state =
  documents :: ref
  fails :: "string list"
  authorship_graph :: "akey digraph"
  citation_graph :: "string digraph"
  target_depth :: pyarg
  last_quota :: "string option"
  reset_time :: "string option"
  list_store :: "ref \<Rightarrow> abstract list"
  dict_store :: "ref \<Rightarrow> pydict"
  next_ref :: ref
  files :: "string \<Rightarrow> pickled option"
  trace :: "event list"

text \<open>The list \<open>self.documents\<close> refers to.\<close>

definition record_store :: "state \<Rightarrow> abstract list" where
  "record_store st = list_store st (documents st)"

text \<open>
  Objects made when the module is loaded: the default \<open>documents = []\<close> of
  \<open>__init__\<close> and the default \<open>flags={}\<close> of each method that has one.
\<close>

definition init_documents :: ref where "init_documents = 0"
definition pull_abstract_flags :: ref where "pull_abstract_flags = 1"
definition pull_author_flags :: ref where "pull_author_flags = 2"
definition pull_authors_flags :: ref where "pull_authors_flags = 3"
definition compile_graphs_flags :: ref where "compile_graphs_flags = 4"
definition add_document_flags :: ref where "add_document_flags = 5"
definition add_documents_flags :: ref where "add_documents_flags = 6"

text \<open>\<open>__init__(self, documents = [])\<close>; None stands for the default argument.\<close>

definition init :: "ref option \<Rightarrow> state \<Rightarrow> state" where
  "init docs st =
     st\<lparr>documents := (case docs of None \<Rightarrow> init_documents | Some r \<Rightarrow> r),
        fails := [],
        authorship_graph := empty_graph,
        citation_graph := empty_graph,
        target_depth := ArgInt 0,
        last_quota := Some [],
        reset_time := Some []\<rparr>"

text \<open>
  The process before any instance exists: empty default objects, no files. Its instance
  fields are placeholders that \<open>init\<close> overwrites.
\<close>

definition process_start :: state where
  "process_start =
     \<lparr>documents = init_documents, fails = [], authorship_graph = empty_graph,
      citation_graph = empty_graph, target_depth = ArgInt 0, last_quota = None,
      reset_time = None, list_store = (\<lambda>_. []), dict_store = (\<lambda>_. []), next_ref = 7,
      files = (\<lambda>_. None), trace = []\<rparr>"

text \<open>A caller's own list or dict object.\<close>

definition new_list :: "abstract list \<Rightarrow> state \<Rightarrow> ref \<times> state" where
  "new_list xs st =
     (next_ref st, st\<lparr>list_store := (list_store st)(next_ref st := xs),
                      next_ref := Suc (next_ref st)\<rparr>)"

definition new_dict :: "pydict \<Rightarrow> state \<Rightarrow> ref \<times> state" where
  "new_dict d st =
     (next_ref st, st\<lparr>dict_store := (dict_store st)(next_ref st := d),
                      next_ref := Suc (next_ref st)\<rparr>)"

definition emit :: "event \<Rightarrow> state \<Rightarrow> state" where
  "emit ev st = st\<lparr>trace := trace st @ [ev]\<rparr>"

section \<open>The expansion engine\<close>

definition eid_from_id :: "string \<Rightarrow> string" where
  "eid_from_id thisid = ''2-s2.0-'' @ thisid"

text \<open>\<open>is_repeat\<close>: the loop keeps the last document whose eid matches.\<close>

definition is_repeat :: "state \<Rightarrow> string \<Rightarrow> bool \<times> abstract option" where
  "is_repeat st e =
     fold (\<lambda>doc (answer, match). if eid doc = e then (True, Some doc) else (answer, match))
       (record_store st) (False, None)"

definition min_indegree_to_pull :: nat where
  "min_indegree_to_pull = 3"

text \<open>\<open>depth < self.target_depth\<close>: an int against a dict raises TypeError.\<close>

fun depth_lt :: "int \<Rightarrow> pyarg \<Rightarrow> pyerror + bool" where
  "depth_lt d (ArgInt n) = Inr (d < n)"
| "depth_lt d ArgFalse = Inr (d < 0)"
| "depth_lt d (ArgDict r) = Inl TypeError"

text \<open>
  Lines 116 to 132 of \<open>pull_abstract\<close>: the quota readings, the append to
  \<open>self.documents\<close>, \<open>flags.update(year = ...)\<close> on the caller's dict object,
  \<open>add_node(abstract.eid, attr=flags)\<close>, and the authorship graph. (\<open>report\<close> only
  prints.)
\<close>

definition add_author :: "string \<Rightarrow> author \<Rightarrow> akey digraph \<Rightarrow> akey digraph" where
  "add_author e a g =
     add_edge (Inl e) (Inr (auid a))
       (add_node (Inr (auid a))
          [(''bipartite'', Val (PyInt 1)), (''name'', Val (PyStr (indexed_name a)))] g)"

definition record_abstract :: "abstract \<Rightarrow> bool \<Rightarrow> ref \<Rightarrow> state \<Rightarrow> state" where
  "record_abstract a report flags st =
     st\<lparr>last_quota := key_remaining_quota a,
        reset_time := key_reset_time a,
        list_store := (list_store st)(documents st := list_store st (documents st) @ [a]),
        dict_store := (dict_store st)
          (flags := AList.update ''year'' (PyStr (take 4 (coverDate a))) (dict_store st flags)),
        citation_graph := add_node (eid a) [(''attr'', DictRef flags)] (citation_graph st),
        authorship_graph :=
          (case authors a of
             None \<Rightarrow> authorship_graph st
           | Some as \<Rightarrow>
               fold (add_author (eid a)) as
                 (add_node (Inl (eid a)) [(''bipartite'', Val (PyInt 0))]
                    (authorship_graph st)))\<rparr>"

text \<open>The \<open>except Exception\<close> block of \<open>pull_abstract\<close>.\<close>

definition except_handler :: "string \<Rightarrow> state \<Rightarrow> state" where
  "except_handler e st = emit (Print (e @ '' failed to pull'')) (st\<lparr>fails := fails st @ [e]\<rparr>)"

definition reference_list :: "abstract \<Rightarrow> reference list" where
  "reference_list a = (case references a of None \<Rightarrow> [] | Some rs \<Rightarrow> rs)"

text \<open>Line 102: \<open>self.citation_graph.add_edge(abstract.eid, reference_eid)\<close>.\<close>

definition cite :: "abstract \<Rightarrow> reference \<Rightarrow> state \<Rightarrow> state" where
  "cite a r st =
     st\<lparr>citation_graph := add_edge (eid a) (eid_from_id (reference_id r)) (citation_graph st)\<rparr>"

text \<open>
  Lines 105 and 107, read after the edge is in the graph: whether the reference is
  pulled, or the exception the comparison raises.
\<close>

definition gate :: "int \<Rightarrow> reference \<Rightarrow> state \<Rightarrow> pyerror + bool" where
  "gate depth r st =
     (case depth_lt depth (target_depth st) of
        Inl err \<Rightarrow> Inl err
      | Inr lt \<Rightarrow>
          Inr (lt \<and> min_indegree_to_pull \<le> in_degree (citation_graph st) (eid_from_id (reference_id r))))"

text \<open>
  \<open>pull_abstract\<close>, the body of its \<open>try\<close> block, and the loop of its inner function
  \<open>pull_references\<close> over the references still to visit. The recursive call is
  \<open>self.pull_abstract(reference_eid, depth+1)\<close>: no report, the default flags object.
  An exception raised in the loop ends it; the \<open>else\<close> branch of \<open>pull_abstract\<close>
  is outside the \<open>try\<close>, so there it leaves the method.
\<close>

function (domintros)
  pull_abstract :: "remote \<Rightarrow> string \<Rightarrow> int \<Rightarrow> bool \<Rightarrow> ref \<Rightarrow> state \<Rightarrow> pyerror option \<times> state" and
  pull_abstract_try :: "remote \<Rightarrow> string \<Rightarrow> int \<Rightarrow> bool \<Rightarrow> ref \<Rightarrow> state \<Rightarrow> pyerror option \<times> state" and
  pull_references :: "remote \<Rightarrow> abstract \<Rightarrow> int \<Rightarrow> reference list \<Rightarrow> state \<Rightarrow> pyerror option \<times> state"
where
  "pull_abstract R e depth report flags st =
     (case is_repeat st e of
        (False, match) \<Rightarrow>
          (case pull_abstract_try R e depth report flags (emit (Call e depth) st) of
             (Some err, st1) \<Rightarrow> (None, except_handler e st1)
           | (None, st1) \<Rightarrow> (None, st1))
      | (True, Some match) \<Rightarrow>
          pull_references R match depth (reference_list match) (emit (Call e depth) st)
      | (True, None) \<Rightarrow> (Some AttributeError, emit (Call e depth) st))"
| "pull_abstract_try R e depth report flags st =
     (case AbstractRetrieval R e of
        Inl err \<Rightarrow> (Some err, emit (Fetch e) st)
      | Inr a \<Rightarrow>
          pull_references R a depth (reference_list a)
            (record_abstract a report flags (emit (Fetch e) st)))"
| "pull_references R a depth [] st = (None, st)"
| "pull_references R a depth (r # rs) st =
     (case gate depth r (cite a r st) of
        Inl err \<Rightarrow> (Some err, cite a r st)
      | Inr True \<Rightarrow>
          (case pull_abstract R (eid_from_id (reference_id r)) (depth + 1) False
                  pull_abstract_flags (cite a r st) of
             (Some err, st2) \<Rightarrow> (Some err, st2)
           | (None, st2) \<Rightarrow> pull_references R a depth rs st2)
      | Inr False \<Rightarrow> pull_references R a depth rs (cite a r st))"
  by pat_completeness auto

text \<open>
  \<open>add_document\<close> and \<open>add_documents\<close>. \<open>eidlist\<close> is one eid or a list of eids
  (\<open>isinstance(eidlist, str)\<close>); \<open>target_depth if target_depth else
  self.target_depth\<close> keeps the old depth when the argument is falsy. An exception that
  leaves \<open>add_document\<close> ends the loop. (\<open>_show_progress\<close> only prints.)
\<close>

datatype eid_arg = OneEid string | EidList "string list"

definition eids_of :: "eid_arg \<Rightarrow> string list" where
  "eids_of eidlist = (case eidlist of OneEid e \<Rightarrow> [e] | EidList es \<Rightarrow> es)"

definition truthy :: "state \<Rightarrow> pyarg \<Rightarrow> bool" where
  "truthy st x =
     (case x of ArgFalse \<Rightarrow> False | ArgInt n \<Rightarrow> n \<noteq> 0 | ArgDict r \<Rightarrow> dict_store st r \<noteq> [])"

definition add_document :: "remote \<Rightarrow> string \<Rightarrow> bool \<Rightarrow> ref \<Rightarrow> state \<Rightarrow> pyerror option \<times> state" where
  "add_document R e report flags st = pull_abstract R e 0 report flags st"

fun add_documents_loop :: "remote \<Rightarrow> string list \<Rightarrow> ref \<Rightarrow> state \<Rightarrow> pyerror option \<times> state" where
  "add_documents_loop R [] flags st = (None, st)"
| "add_documents_loop R (e # es) flags st =
     (case add_document R e False flags st of
        (Some err, st1) \<Rightarrow> (Some err, st1)
      | (None, st1) \<Rightarrow> add_documents_loop R es flags st1)"

definition add_documents ::
  "remote \<Rightarrow> eid_arg \<Rightarrow> pyarg \<Rightarrow> ref \<Rightarrow> state \<Rightarrow> pyerror option \<times> state" where
  "add_documents R eidlist td flags st =
     add_documents_loop R (eids_of eidlist) flags
       (st\<lparr>target_depth := (if truthy st td then td else target_depth st)\<rparr>)"

text \<open>
  \<open>pull_author\<close>: line 153 is \<open>self.add_documents(newdocs, flags)\<close>, so the flags
  dict is the \<open>target_depth\<close> argument and \<open>add_documents\<close> runs with its own default
  flags. Whatever is raised inside is caught and printed.
\<close>

definition pull_author :: "remote \<Rightarrow> string \<Rightarrow> ref \<Rightarrow> state \<Rightarrow> pyerror option \<times> state" where
  "pull_author R a flags st =
     (case AuthorRetrieval R a of
        Inl err \<Rightarrow> (None, emit (Print (a @ '' failed to pull'')) st)
      | Inr None \<Rightarrow> (None, st)
      | Inr (Some newdocs) \<Rightarrow>
          (case add_documents R (EidList newdocs) (ArgDict flags) add_documents_flags st of
             (Some err, st1) \<Rightarrow> (None, emit (Print (a @ '' failed to pull'')) st1)
           | (None, st1) \<Rightarrow> (None, st1)))"


text \<open>The events a run added to the trace.\<close>

definition new_events :: "state \<Rightarrow> state \<Rightarrow> event list" where
  "new_events st st' = drop (length (trace st)) (trace st')"

section \<open>Checkpoints\<close>

definition checkpoint_path :: "string \<Rightarrow> string" where
  "checkpoint_path key = ''CiteNetXCheckpoints/'' @ ''CiteNetXCheckpoints'' @ key @ ''.pickle''"


text \<open>
  \<open>pickle.load\<close> builds new objects: the dict objects of the file are placed at fresh
  references (the old reference plus the first free one, so what was shared stays
  shared), and the graph that refers to them is renamed accordingly.
\<close>

definition rebase :: "ref \<Rightarrow> string digraph \<Rightarrow> string digraph" where
  "rebase base g =
     g\<lparr>node_data :=
         map (\<lambda>(n, d). (n, map (\<lambda>(k, v). (k, case v of Val x \<Rightarrow> Val x
                                                 | DictRef r \<Rightarrow> DictRef (base + r))) d))
           (node_data g)\<rparr>"

definition unpickle_dicts :: "(ref \<Rightarrow> pydict) \<Rightarrow> ref \<Rightarrow> state \<Rightarrow> state" where
  "unpickle_dicts dicts bound st =
     st\<lparr>dict_store := (\<lambda>r. if next_ref st \<le> r then dicts (r - next_ref st) else dict_store st r),
        next_ref := next_ref st + bound\<rparr>"

text \<open>
  The \<open>try\<close> block of \<open>load_checkpoint\<close>: open and unpickle, then the three
  assignments in the order of the source, each reading its key from the loaded dict.
\<close>

definition load_try :: "string \<Rightarrow> state \<Rightarrow> pyerror option \<times> state" where
  "load_try k st =
     (case files st (checkpoint_path k) of
        None \<Rightarrow> (Some FileNotFoundError, st)
      | Some Corrupt \<Rightarrow> (Some UnpicklingError, st)
      | Some (Bundle docs auth cit dicts bound) \<Rightarrow>
          (case docs of
             None \<Rightarrow> (Some KeyError, unpickle_dicts dicts bound st)
           | Some ds \<Rightarrow>
               (case auth of
                  None \<Rightarrow>
                    (Some KeyError,
                     (snd (new_list ds (unpickle_dicts dicts bound st)))
                       \<lparr>documents := fst (new_list ds (unpickle_dicts dicts bound st))\<rparr>)
                | Some ag \<Rightarrow>
                    (case cit of
                       None \<Rightarrow>
                         (Some KeyError,
                          (snd (new_list ds (unpickle_dicts dicts bound st)))
                            \<lparr>documents := fst (new_list ds (unpickle_dicts dicts bound st)),
                             authorship_graph := ag\<rparr>)
                     | Some cg \<Rightarrow>
                         (None,
                          (snd (new_list ds (unpickle_dicts dicts bound st)))
                            \<lparr>documents := fst (new_list ds (unpickle_dicts dicts bound st)),
                             authorship_graph := ag,
                             citation_graph := rebase (next_ref st) cg\<rparr>)))))"

definition load_checkpoint :: "string option \<Rightarrow> state \<Rightarrow> pyerror option \<times> state" where
  "load_checkpoint key st =
     (case key of
        None \<Rightarrow> (None, emit (Print ''key is needed to load checkpoint!'') st)
      | Some k \<Rightarrow>
          (case load_try k st of
             (Some err, st1) \<Rightarrow>
               (None, emit (Print (''Failed to load checkpoint with key '' @ k)) st1)
           | (None, st1) \<Rightarrow> (None, st1)))"




section \<open>Quota summary\<close>

text \<open>
  \<open>datetime.fromisoformat\<close> raises ValueError on a string that is no ISO date, and
  the empty string is none; \<open>parse\<close> reads the others. \<open>show_delta\<close> formats the
  difference \<open>end - start\<close>, \<open>now\<close> is \<open>datetime.now()\<close>.
\<close>

definition fromisoformat :: "(string \<Rightarrow> int option) \<Rightarrow> string \<Rightarrow> pyerror + int" where
  "fromisoformat parse s =
     (if s = [] then Inl ValueError
      else case parse s of None \<Rightarrow> Inl ValueError | Some t \<Rightarrow> Inr t)"

definition quotas ::
  "(string \<Rightarrow> int option) \<Rightarrow> (int \<Rightarrow> string) \<Rightarrow> int \<Rightarrow> state \<Rightarrow> pyerror option \<times> state" where
  "quotas parse show_delta now st =
     (case (case reset_time st of
              None \<Rightarrow> Inr ''Reset Time Unknown''
            | Some rt \<Rightarrow>
                (case fromisoformat parse rt of
                   Inl err \<Rightarrow> Inl err
                 | Inr end_time \<Rightarrow>
                     Inr (''key resets on '' @ rt @ '' ('' @ show_delta (end_time - now) @ '')''))) of
        Inl err \<Rightarrow> (Some err, st)
      | Inr reset_string \<Rightarrow>
          (None,
           emit (Print ((case last_quota st of
                           None \<Rightarrow> ''Pulls Remaining Unknown''
                         | Some q \<Rightarrow> ''remaining pulls this key: '' @ q @ ''.'')
                        @ [CHR '' '', CHR 0x0A, CHR '' ''] @ reset_string)) st))"

section \<open>Graph queries\<close>

definition get_nodes_with_attribute :: "'n digraph \<Rightarrow> string \<Rightarrow> pyval \<Rightarrow> 'n list" where
  "get_nodes_with_attribute graph attribute v =
     map fst (filter (\<lambda>(n, d). case map_of d attribute of None \<Rightarrow> False
                                | Some x \<Rightarrow> attr_eq x v) (node_data graph))"

text \<open>
  The networkx functions on the undirected view. \<open>ball g s k\<close> lists the nodes at most
  \<open>k\<close> steps from \<open>s\<close>; \<open>shortest_path_length\<close> is the least such \<open>k\<close> for the
  target, NodeNotFound for a node not in the graph and NetworkXNoPath when there is no
  path; \<open>diameter\<close> is the greatest distance, and raises on a graph that is empty or
  not connected.
\<close>

definition neighbors :: "'n digraph \<Rightarrow> 'n \<Rightarrow> 'n list" where
  "neighbors g n =
     map snd (filter (\<lambda>e. fst e = n) (edge_list g)) @
     map fst (filter (\<lambda>e. snd e = n) (edge_list g))"

fun ball :: "'n digraph \<Rightarrow> 'n \<Rightarrow> nat \<Rightarrow> 'n list" where
  "ball g s 0 = [s]"
| "ball g s (Suc k) = ball g s k @ concat (map (neighbors g) (ball g s k))"

definition shortest_path_length :: "'n digraph \<Rightarrow> 'n \<Rightarrow> 'n \<Rightarrow> pyerror + nat" where
  "shortest_path_length g s t =
     (if \<not> has_node g s \<or> \<not> has_node g t then Inl NodeNotFound
      else case find (\<lambda>k. List.member (ball g s k) t) [0..<length (node_data g)] of
             None \<Rightarrow> Inl NetworkXNoPath
           | Some k \<Rightarrow> Inr k)"

definition all_distances :: "'n digraph \<Rightarrow> (pyerror + nat) list" where
  "all_distances g =
     concat (map (\<lambda>s. map (shortest_path_length g s) (map fst (node_data g)))
               (map fst (node_data g)))"

definition diameter :: "'n digraph \<Rightarrow> pyerror + nat" where
  "diameter g =
     (if node_data g = [] then Inl ValueError
      else if list_ex isl (all_distances g) then Inl NetworkXError
      else Inr (fold max (map projr (all_distances g)) 0))"

fun closer :: "'n digraph \<Rightarrow> 'n \<Rightarrow> 'n \<Rightarrow> pyerror + nat \<Rightarrow> pyerror + nat" where
  "closer g node_id initial_node_id (Inl err) = Inl err"
| "closer g node_id initial_node_id (Inr distance) =
     (case shortest_path_length g initial_node_id node_id of
        Inl err \<Rightarrow> Inl err
      | Inr this_distance \<Rightarrow> Inr (min distance this_distance))"

definition distance_from_initial_sample :: "state \<Rightarrow> string \<Rightarrow> pyerror + nat" where
  "distance_from_initial_sample st node_id =
     fold (closer (citation_graph st) node_id)
       (get_nodes_with_attribute (citation_graph st) ''initial'' (PyBool True))
       (diameter (citation_graph st))"

text \<open>What no step of the expansion touches.\<close>

definition frame :: "state \<Rightarrow> state \<Rightarrow> bool" where
  "frame st st' \<longleftrightarrow> target_depth st' = target_depth st \<and> documents st' = documents st
     \<and> files st' = files st \<and> next_ref st' = next_ref st"

section \<open>A small library and sessions over it\<close>

text \<open>
  Three papers that all cite \<open>r1\<close> (the first also \<open>r2\<close>), the record of
  \<open>r1\<close> itself, an author with one paper and an author with none. Used as the
  concrete inputs of the instances below.
\<close>

definition paper :: "string \<Rightarrow> string list \<Rightarrow> abstract" where
  "paper e ids =
     \<lparr>eid = e, coverDate = ''2020-05-17'',
      references = Some (map (\<lambda>i. \<lparr>reference_id = i\<rparr>) ids),
      authors = Some [\<lparr>auid = 7, indexed_name = ''Rebstock M.''\<rparr>],
      key_remaining_quota = Some ''9999'', key_reset_time = Some ''2030-01-01 00:00:00''\<rparr>"

definition library :: remote where
  "library =
     \<lparr>AbstractRetrieval =
        (\<lambda>e. if e = ''D1'' then Inr (paper ''D1'' [''r1'', ''r2''])
             else if e = ''D2'' then Inr (paper ''D2'' [''r1''])
             else if e = ''D3'' then Inr (paper ''D3'' [''r1''])
             else if e = ''2-s2.0-r1'' then Inr (paper ''2-s2.0-r1'' [])
             else Inl RemoteFetchError),
      AuthorRetrieval =
        (\<lambda>a. if a = ''A1'' then Inr (Some [''D1''])
             else if a = ''A0'' then Inr (Some [])
             else Inl RemoteFetchError)\<rparr>"

text \<open>A fresh session after \<open>add_documents(['D1', 'D2'], 1)\<close>.\<close>

definition two_pulled :: state where
  "two_pulled =
     snd (add_documents library (EidList [''D1'', ''D2'']) (ArgInt 1) add_documents_flags
            (init None process_start))"

text \<open>
  The record \<open>pull_abstract\<close> works on: the stored one when the eid is a repeat, else the
  one the remote source returns (None when the request fails).
\<close>

definition document_in_hand :: "remote \<Rightarrow> state \<Rightarrow> string \<Rightarrow> abstract option" where
  "document_in_hand R st e =
     (case is_repeat st e of
        (True, match) \<Rightarrow> match
      | (False, match) \<Rightarrow>
          (case AbstractRetrieval R e of Inl err \<Rightarrow> None | Inr a \<Rightarrow> Some a))"

text \<open>
  A session whose caller made a flags dict \<open>{'initial': True}\<close> (it is object 7), and
  the same session after \<open>pull_author('A0', flags)\<close> for an author without papers.
\<close>

definition flagged_session :: state where
  "flagged_session = snd (new_dict [(''initial'', PyBool True)] (init None process_start))"

definition after_pull_author :: state where
  "after_pull_author = snd (pull_author library ''A0'' 7 flagged_session)"


text \<open>
  The session above after \<open>pull_abstract('D1', 0, False, flags)\<close> with the caller's
  dict \<open>{'initial': True}\<close> as flags.
\<close>

definition flagged_pull :: state where
  "flagged_pull = snd (pull_abstract library ''D1'' 0 False 7 flagged_session)"

text \<open>
  A first default session that pulled \<open>D1\<close>, and a second one made afterwards in the
  same process by \<open>CitationNetworkExplorer()\<close>.
\<close>

definition first_session :: state where
  "first_session =
     snd (add_document library ''D1'' True add_document_flags (init None process_start))"

definition second_session :: state where
  "second_session = init None first_session"

text \<open>
  A new session beside a checkpoint file \<open>k\<close> whose dict has the entry
  \<open>documents\<close> and no other, and new sessions beside a file that does not unpickle and
  beside one whose dict has no entry \<open>documents\<close>.
\<close>

definition with_file :: "string \<Rightarrow> pickled \<Rightarrow> state \<Rightarrow> state" where
  "with_file k content st = st\<lparr>files := (files st)(checkpoint_path k \<mapsto> content)\<rparr>"

definition documents_only_session :: state where
  "documents_only_session =
     with_file ''k'' (Bundle (Some [paper ''D1'' []]) None None (\<lambda>r. []) 0)
       (init None process_start)"

definition corrupt_file_session :: state where
  "corrupt_file_session = with_file ''k'' Corrupt two_pulled"

definition no_documents_session :: state where
  "no_documents_session =
     with_file ''k'' (Bundle None (Some empty_graph) (Some empty_graph) (\<lambda>r. []) 0) two_pulled"

text \<open>
  The session \<open>two_pulled\<close> beside a file whose dict has \<open>documents\<close> and
  \<open>authorship\<close> and no \<open>citations\<close>.
\<close>

definition no_citations_session :: state where
  "no_citations_session =
     with_file ''k'' (Bundle (Some [paper ''D3'' []]) (Some empty_graph) None (\<lambda>r. []) 0)
       two_pulled"


text \<open>
  Sessions whose citation graph was built by hand: a seed \<open>S\<close> (attribute
  \<open>initial = True\<close> in its own dict) cited by \<open>X\<close>, without and with a third node
  \<open>Y\<close> that no edge touches.
\<close>

definition seeded_graph :: "string digraph" where
  "seeded_graph =
     add_edge ''X'' ''S'' (add_node ''S'' [(''initial'', Val (PyBool True))] empty_graph)"

definition seeded_session :: state where
  "seeded_session = (init None process_start)\<lparr>citation_graph := seeded_graph\<rparr>"

definition split_session :: state where
  "split_session = (init None process_start)\<lparr>citation_graph := add_node ''Y'' [] seeded_graph\<rparr>"


text \<open>
  The session that pulled \<open>D1\<close> with the flags dict, after a later
  \<open>pull_author('A0', flags)\<close>: \<open>D1\<close> is stored and \<open>target_depth\<close> holds the dict.
\<close>

definition stored_then_dict :: state where
  "stored_then_dict = snd (pull_author library ''A0'' 7 flagged_pull)"

text \<open>
  A new session that loads a checkpoint whose citation graph is the one with the node
  \<open>Y\<close> above.
\<close>

definition split_graph_loaded :: state where
  "split_graph_loaded =
     snd (load_checkpoint (Some ''k'')
            (with_file ''k''
               (Bundle (Some []) (Some empty_graph) (Some (add_node ''Y'' [] seeded_graph))
                  (\<lambda>r. []) 0)
               (init None process_start)))"

text \<open>\<open>target_depth\<close> holds something an int can be compared with.\<close>

definition depth_comparable :: "state \<Rightarrow> bool" where
  "depth_comparable st = (case target_depth st of ArgDict r \<Rightarrow> False | _ \<Rightarrow> True)"

section \<open>Termination of the expansion\<close>

text \<open>How many levels the expansion may still descend from \<open>depth\<close>.\<close>

definition levels_left :: "int \<Rightarrow> state \<Rightarrow> nat" where
  "levels_left depth st =
     (case target_depth st of
        ArgInt n \<Rightarrow> nat (n - depth) | ArgFalse \<Rightarrow> nat (- depth) | ArgDict r \<Rightarrow> 0)"


lemma target_depth_steps [simp]:
  "target_depth (emit ev st) = target_depth st"
  "target_depth (cite a r st) = target_depth st"
  "target_depth (record_abstract a rep fl st) = target_depth st"
  "target_depth (except_handler e st) = target_depth st"
  by (simp_all add: emit_def cite_def record_abstract_def except_handler_def)

text \<open>
  Nothing in the expansion assigns \<open>target_depth\<close>; the loop needs this of the nested
  call to know that the distance to the target depth still bounds it.
\<close>

lemma target_depth_partial:
  "pull_abstract_pull_abstract_try_pull_references_dom (Inl (R, e, depth, report, flags, st)) \<Longrightarrow>
     target_depth (snd (pull_abstract R e depth report flags st)) = target_depth st"
  "pull_abstract_pull_abstract_try_pull_references_dom (Inr (Inl (R, e, depth, report, flags, st))) \<Longrightarrow>
     target_depth (snd (pull_abstract_try R e depth report flags st)) = target_depth st"
  "pull_abstract_pull_abstract_try_pull_references_dom (Inr (Inr (R, a, depth, rs, st))) \<Longrightarrow>
     target_depth (snd (pull_references R a depth rs st)) = target_depth st"
proof (induct rule: pull_abstract_pull_abstract_try_pull_references.pinduct)
  case (1 R e depth report flags st)
  then show ?case
    by (auto simp: pull_abstract.psimps split: prod.splits option.splits bool.splits)
next
  case (2 R e depth report flags st)
  then show ?case
    by (auto simp: pull_abstract_try.psimps split: sum.splits)
next
  case (3 R a depth st)
  then show ?case by (simp add: pull_references.psimps)
next
  case (4 R a depth r rs st)
  then show ?case
    by (auto simp: pull_references.psimps split: sum.splits prod.splits option.splits bool.splits)
qed

termination pull_abstract
proof (relation "measures [
    (\<lambda>x. case x of
       Inl (R, e, depth, report, flags, st) \<Rightarrow> levels_left depth st
     | Inr (Inl (R, e, depth, report, flags, st)) \<Rightarrow> levels_left depth st
     | Inr (Inr (R, a, depth, rs, st)) \<Rightarrow> levels_left depth st),
    (\<lambda>x. case x of Inl _ \<Rightarrow> 2 | Inr (Inl _) \<Rightarrow> 1 | Inr (Inr _) \<Rightarrow> 0),
    (\<lambda>x. case x of Inr (Inr (R, a, depth, rs, st)) \<Rightarrow> length rs | _ \<Rightarrow> 0)]", goal_cases)
  case 1 show ?case by simp
next
  case 2 then show ?case by (simp add: levels_left_def)
next
  case 3 then show ?case by (simp add: levels_left_def)
next
  case 4 then show ?case by (simp add: levels_left_def)
next
  case (5 R a depth r rs st x)
  then show ?case
    by (cases "target_depth st") (auto simp: gate_def levels_left_def split: sum.splits if_splits)
next
  case (6 R a depth r rs st x2 x1a x2a)
  from 6 have eq: "pull_abstract R (eid_from_id (reference_id r)) (depth + 1) False
      pull_abstract_flags (cite a r st) = (None, x2a)"
    by simp
  from 6 have "target_depth (snd (pull_abstract R (eid_from_id (reference_id r)) (depth + 1) False
      pull_abstract_flags (cite a r st))) = target_depth (cite a r st)"
    by (intro target_depth_partial(1)) simp
  with eq have "target_depth x2a = target_depth st" by simp
  then show ?case by (simp add: levels_left_def)
next
  case 7 then show ?case by (simp add: levels_left_def)
qed

section \<open>Facts about the expansion\<close>

text \<open>\<open>is_repeat\<close> finds an eid exactly when a stored record has it, and returns such a record.\<close>

lemma is_repeat_alt:
  "is_repeat st e =
     fold (\<lambda>doc acc. if eid doc = e then (True, Some doc) else acc) (record_store st) (False, None)"
proof -
  have "(\<lambda>doc (answer, match). if eid doc = e then (True, Some doc) else (answer, match))
      = (\<lambda>doc acc. if eid doc = e then (True, Some doc) else acc)"
    by (auto simp: fun_eq_iff)
  then show ?thesis by (simp add: is_repeat_def)
qed

lemma is_repeat_fold:
  "fold (\<lambda>doc acc. if eid doc = e then (True, Some doc) else acc) xs (False, None) = (b, m)
   \<Longrightarrow> (b \<longleftrightarrow> e \<in> eid ` set xs) \<and> (b \<longrightarrow> (\<exists>d. m = Some d \<and> eid d = e \<and> d \<in> set xs))"
proof (induction xs arbitrary: b m rule: rev_induct)
  case Nil
  then show ?case by simp
next
  case (snoc x xs)
  show ?case
  proof (cases "eid x = e")
    case True
    with snoc.prems show ?thesis by auto
  next
    case False
    with snoc.prems have "fold (\<lambda>doc acc. if eid doc = e then (True, Some doc) else acc) xs (False, None) = (b, m)"
      by simp
    from snoc.IH[OF this] False show ?thesis by auto
  qed
qed


lemma is_repeat_match:
  "is_repeat st e = (True, m) \<Longrightarrow> \<exists>d. m = Some d \<and> eid d = e \<and> d \<in> set (record_store st)"
  using is_repeat_fold[of e "record_store st" True m]
  by (simp add: is_repeat_alt)

lemma record_store_steps [simp]:
  "record_store (emit ev st) = record_store st"
  "record_store (cite a r st) = record_store st"
  "record_store (except_handler e st) = record_store st"
  "record_store (record_abstract a rep fl st) = record_store st @ [a]"
  by (simp_all add: record_store_def emit_def cite_def except_handler_def record_abstract_def)

lemma is_repeat_steps [simp]:
  "is_repeat (emit ev st) e = is_repeat st e"
  "is_repeat (cite a r st) e = is_repeat st e"
  by (simp_all add: is_repeat_def)

text \<open>
  Every state the expansion passes through is reached by the steps below, so a relation
  between states that contains each step and is reflexive and transitive relates the
  state before a call to the state after it.
\<close>

lemma expansion_steps:
  assumes Qrefl: "\<And>st. Q st st"
    and Qtrans: "\<And>s1 s2 s3. Q s1 s2 \<Longrightarrow> Q s2 s3 \<Longrightarrow> Q s1 s3"
    and call: "\<And>e d st. Q st (emit (Call e d) st)"
    and cite: "\<And>a r st. Q st (cite a r st)"
    and handler: "\<And>e st. Q st (except_handler e st)"
    and fetch_fail: "\<And>e err st. \<not> fst (is_repeat st e) \<Longrightarrow> AbstractRetrieval R e = Inl err \<Longrightarrow>
        Q st (emit (Fetch e) st)"
    and fetch_ok: "\<And>e a rep fl st. \<not> fst (is_repeat st e) \<Longrightarrow> AbstractRetrieval R e = Inr a \<Longrightarrow>
        Q st (record_abstract a rep fl (emit (Fetch e) st))"
  shows "Q st (snd (pull_abstract R e depth report flags st))"
    and "\<not> fst (is_repeat st e) \<Longrightarrow> Q st (snd (pull_abstract_try R e depth report flags st))"
    and "Q st (snd (pull_references R a depth rs st))"
proof -
  have gen:
    "R' = R \<longrightarrow> Q st (snd (pull_abstract R' e depth report flags st))"
    "R' = R \<longrightarrow> \<not> fst (is_repeat st e) \<longrightarrow> Q st (snd (pull_abstract_try R' e depth report flags st))"
    "R' = R \<longrightarrow> Q st (snd (pull_references R' a depth rs st))"
    for R' e depth report flags st a rs
  proof (induction R' e depth report flags st and R' e depth report flags st and R' a depth rs st
      rule: pull_abstract_pull_abstract_try_pull_references.induct)
    case (1 R' e depth report flags st)
    note IH = "1.IH"
    have c: "Q st (emit (Call e depth) st)" by (rule call)
    show ?case
    proof (intro impI)
      assume RR: "R' = R"
      show "Q st (snd (pull_abstract R' e depth report flags st))"
      proof (cases "is_repeat st e")
        case (Pair found match)
        show ?thesis
        proof (cases found)
          case False
          with Pair have nf: "\<not> fst (is_repeat (emit (Call e depth) st) e)" by simp
          from Pair False have eq: "(False, match) = is_repeat st e" by simp
          from IH(2)[OF eq refl] RR nf
          have t: "Q (emit (Call e depth) st)
              (snd (pull_abstract_try R' e depth report flags (emit (Call e depth) st)))" by blast
          show ?thesis
          proof (cases "pull_abstract_try R' e depth report flags (emit (Call e depth) st)")
            case (Pair err st1)
            with t have "Q (emit (Call e depth) st) st1" by simp
            with c have q1: "Q st st1" by (rule Qtrans)
            have "Q st (except_handler e st1)" by (rule Qtrans[OF q1 handler])
            with q1 Pair eq[symmetric] show ?thesis
              by (cases err) simp_all
          qed
        next
          case True
          show ?thesis
          proof (cases match)
            case None
            with Pair True c show ?thesis by simp
          next
            case (Some m)
            with Pair True have eq: "(True, Some m) = is_repeat st e" by simp
            from IH(1)[OF eq refl refl] RR
            have "Q (emit (Call e depth) st)
              (snd (pull_references R' m depth (reference_list m) (emit (Call e depth) st)))" by blast
            with c have "Q st (snd (pull_references R' m depth (reference_list m) (emit (Call e depth) st)))"
              by (rule Qtrans)
            with eq[symmetric] show ?thesis by simp
          qed
        qed
      qed
    qed
  next
    case (2 R' e depth report flags st)
    note IH = "2.IH"
    show ?case
    proof (intro impI)
      assume RR: "R' = R" and nf: "\<not> fst (is_repeat st e)"
      show "Q st (snd (pull_abstract_try R' e depth report flags st))"
      proof (cases "AbstractRetrieval R' e")
        case (Inl err)
        with fetch_fail[OF nf, of err] RR show ?thesis by simp
      next
        case (Inr a)
        from fetch_ok[OF nf, of a report flags] Inr RR
        have q1: "Q st (record_abstract a report flags (emit (Fetch e) st))" by simp
        from IH[OF Inr] RR
        have "Q (record_abstract a report flags (emit (Fetch e) st))
           (snd (pull_references R' a depth (reference_list a)
                  (record_abstract a report flags (emit (Fetch e) st))))" by blast
        with q1 have "Q st (snd (pull_references R' a depth (reference_list a)
                  (record_abstract a report flags (emit (Fetch e) st))))" by (rule Qtrans)
        with Inr show ?thesis by simp
      qed
    qed
  next
    case (3 R' a depth st)
    then show ?case by (simp add: Qrefl)
  next
    case (4 R' a depth r rs st)
    note IH = "4.IH"
    have c: "Q st (cite a r st)" by (rule cite)
    show ?case
    proof (intro impI)
      assume RR: "R' = R"
      show "Q st (snd (pull_references R' a depth (r # rs) st))"
      proof (cases "gate depth r (cite a r st)")
        case (Inl err)
        with c show ?thesis by simp
      next
        case (Inr go)
        show ?thesis
        proof (cases go)
          case True
          with Inr have g: "gate depth r (cite a r st) = Inr True" by simp
          from IH(1)[OF g refl] RR
          have q1: "Q (cite a r st) (snd (pull_abstract R' (eid_from_id (reference_id r)) (depth + 1) False
                      pull_abstract_flags (cite a r st)))" by blast
          show ?thesis
          proof (cases "pull_abstract R' (eid_from_id (reference_id r)) (depth + 1) False
                      pull_abstract_flags (cite a r st)")
            case (Pair err st2)
            with q1 have "Q (cite a r st) st2" by simp
            with c have q2: "Q st st2" by (rule Qtrans)
            show ?thesis
            proof (cases err)
              case None
              from IH(2)[OF g refl Pair[symmetric] None] RR
              have "Q st2 (snd (pull_references R' a depth rs st2))" by blast
              with q2 have "Q st (snd (pull_references R' a depth rs st2))" by (rule Qtrans)
              with g Pair None show ?thesis by simp
            next
              case (Some x)
              with g Pair q2 show ?thesis by simp
            qed
          qed
        next
          case False
          with Inr have g: "gate depth r (cite a r st) = Inr False" by simp
          from IH(3)[OF g refl] RR
          have "Q (cite a r st) (snd (pull_references R' a depth rs (cite a r st)))" by blast
          with c have "Q st (snd (pull_references R' a depth rs (cite a r st)))" by (rule Qtrans)
          with g show ?thesis by simp
        qed
      qed
    qed
  qed
  from gen(1) show "Q st (snd (pull_abstract R e depth report flags st))" by blast
  from gen(2) show "\<not> fst (is_repeat st e) \<Longrightarrow> Q st (snd (pull_abstract_try R e depth report flags st))"
    by blast
  from gen(3) show "Q st (snd (pull_references R a depth rs st))" by blast
qed

text \<open>Edges are only ever added.\<close>

lemma edge_list_ensure_node [simp]: "edge_list (ensure_node n g) = edge_list g"
  by (simp add: ensure_node_def)

lemma edge_list_add_node [simp]: "edge_list (add_node n new g) = edge_list g"
  by (simp add: add_node_def split: option.splits)

lemma edges_add_edge [simp]: "set (edge_list (add_edge u v g)) = insert (u, v) (set (edge_list g))"
  by (auto simp: add_edge_def Let_def)

lemma expansion_frame:
  "frame st (snd (pull_abstract R e depth report flags st))"
  "frame st (snd (pull_references R a depth rs st))"
  by (rule expansion_steps[where Q = frame];
      simp add: frame_def emit_def cite_def except_handler_def record_abstract_def)+

lemma expansion_trace:
  "\<exists>tl. trace (snd (pull_abstract R e depth report flags st)) = trace st @ tl"
  "\<exists>tl. trace (snd (pull_references R a depth rs st)) = trace st @ tl"
  by (rule expansion_steps[where Q = "\<lambda>s s'. \<exists>tl. trace s' = trace s @ tl"];
      auto simp add: emit_def cite_def except_handler_def record_abstract_def)+

lemma expansion_edges:
  "set (edge_list (citation_graph st)) \<subseteq> set (edge_list (citation_graph (snd (pull_abstract R e depth report flags st))))"
  "set (edge_list (citation_graph st)) \<subseteq> set (edge_list (citation_graph (snd (pull_references R a depth rs st))))"
  by (rule expansion_steps[where Q = "\<lambda>s s'. set (edge_list (citation_graph s)) \<subseteq> set (edge_list (citation_graph s'))"];
      auto simp add: emit_def cite_def except_handler_def record_abstract_def)+

lemma expansion_trace_try:
  "\<not> fst (is_repeat st e) \<Longrightarrow>
   \<exists>tl. trace (snd (pull_abstract_try R e depth report flags st)) = trace st @ tl"
  by (rule expansion_steps(2)[where Q = "\<lambda>s s'. \<exists>tl. trace s' = trace s @ tl"];
      auto simp add: emit_def cite_def except_handler_def record_abstract_def)

text \<open>The first thing a call of \<open>pull_abstract\<close> adds to the trace is the call itself.\<close>

lemma pull_abstract_first_event:
  "\<exists>tl. trace (snd (pull_abstract R e depth report flags st)) = trace st @ Call e depth # tl"
proof (cases "is_repeat st e")
  case (Pair found match)
  show ?thesis
  proof (cases found)
    case False
    with Pair have "\<not> fst (is_repeat (emit (Call e depth) st) e)" by simp
    from expansion_trace_try[OF this, of R depth report flags]
    obtain tl where tl: "trace (snd (pull_abstract_try R e depth report flags (emit (Call e depth) st)))
        = trace st @ Call e depth # tl"
      by (auto simp: emit_def)
    show ?thesis
    proof (cases "pull_abstract_try R e depth report flags (emit (Call e depth) st)")
      case (Pair err st1)
      with tl \<open>is_repeat st e = (found, match)\<close> False show ?thesis
        by (cases err) (simp_all add: except_handler_def emit_def)
    qed
  next
    case True
    show ?thesis
    proof (cases match)
      case None
      with Pair True show ?thesis by (simp add: emit_def)
    next
      case (Some m)
      from expansion_trace(2)[of R m depth "reference_list m" "emit (Call e depth) st"]
      obtain tl where "trace (snd (pull_references R m depth (reference_list m) (emit (Call e depth) st)))
        = trace st @ Call e depth # tl"
        by (auto simp: emit_def)
      with Pair True Some show ?thesis by simp
    qed
  qed
qed

section \<open>C1: the popularity gate\<close>

text \<open>
  C1. While \<open>pull_references\<close> handles a reference \<open>r\<close> of the record in hand at
  depth \<open>d\<close>, the recursive call \<open>pull_abstract(reference_eid, d + 1)\<close> is made
  if and only if, once the edge to \<open>r\<close> is in the citation graph,
  \<open>d < target_depth\<close> holds and the in-degree of \<open>r\<close> is at least 3. The state
  \<open>st\<close> is any state the loop may be in when it reaches \<open>r\<close>.
\<close>

theorem popularity_gate:
  "Call (eid_from_id (reference_id r)) (depth + 1)
     \<in> set (new_events st (snd (pull_references R a depth [r] st)))
   \<longleftrightarrow> depth_lt depth (target_depth st) = Inr True \<and>
       3 \<le> in_degree (add_edge (eid a) (eid_from_id (reference_id r)) (citation_graph st))
              (eid_from_id (reference_id r))"
proof (cases "gate depth r (cite a r st) = Inr True")
  case True
  obtain tl where "trace (snd (pull_abstract R (eid_from_id (reference_id r)) (depth + 1) False
       pull_abstract_flags (cite a r st))) = trace st @ Call (eid_from_id (reference_id r)) (depth + 1) # tl"
    using pull_abstract_first_event[of R "eid_from_id (reference_id r)" "depth + 1" False
        pull_abstract_flags "cite a r st"]
    by (auto simp: cite_def)
  with True have "Call (eid_from_id (reference_id r)) (depth + 1)
     \<in> set (new_events st (snd (pull_references R a depth [r] st)))"
    by (auto simp: new_events_def split: prod.splits option.splits)
  moreover from True have "depth_lt depth (target_depth st) = Inr True \<and>
       3 \<le> in_degree (add_edge (eid a) (eid_from_id (reference_id r)) (citation_graph st))
              (eid_from_id (reference_id r))"
    by (auto simp: gate_def cite_def min_indegree_to_pull_def split: sum.splits)
  ultimately show ?thesis by simp
next
  case False
  then have "new_events st (snd (pull_references R a depth [r] st)) = []"
    by (cases "gate depth r (cite a r st)") (auto simp: new_events_def cite_def split: bool.splits)
  moreover from False have "\<not> (depth_lt depth (target_depth st) = Inr True \<and>
       3 \<le> in_degree (add_edge (eid a) (eid_from_id (reference_id r)) (citation_graph st))
              (eid_from_id (reference_id r)))"
    by (auto simp: gate_def cite_def min_indegree_to_pull_def split: sum.splits)
  ultimately show ?thesis by simp
qed

lemma two_pulled_gate:
  "depth_lt 0 (target_depth two_pulled) = Inr True \<and>
   3 \<le> in_degree (add_edge ''D3'' (eid_from_id ''r1'') (citation_graph two_pulled)) (eid_from_id ''r1'')"
  by code_simp

theorem popularity_gate_witness:
  "Call ''2-s2.0-r1'' 1
     \<in> set (new_events two_pulled
          (snd (pull_references library (paper ''D3'' [''r1'']) 0 [\<lparr>reference_id = ''r1''\<rparr>] two_pulled)))"
  using popularity_gate[of "\<lparr>reference_id = ''r1''\<rparr>" 0 two_pulled library "paper ''D3'' [''r1'']"]
    two_pulled_gate
  by (simp add: paper_def eid_from_id_def)

text \<open>
  The loop over a list of references is the loop over its first part followed, if nothing
  was raised, by the loop over the rest from the state reached: so the statement about
  one reference holds at every position of a reference list.
\<close>

lemma pull_references_append:
  "pull_references R a depth (rs @ rs') st =
     (case pull_references R a depth rs st of
        (Some err, st1) \<Rightarrow> (Some err, st1)
      | (None, st1) \<Rightarrow> pull_references R a depth rs' st1)"
  by (induction rs arbitrary: st) (auto split: sum.splits bool.splits prod.splits option.splits)

section \<open>C3: one record per eid\<close>














section \<open>C2: an edge for every reference\<close>

text \<open>
  While \<open>target_depth\<close> is an int or False no comparison raises: no exception
  leaves \<open>pull_abstract\<close>, the loop over the references runs to its end, and every
  reference of the record in hand has its edge.
\<close>

lemma depth_comparable_steps [simp]:
  "depth_comparable (emit ev st) = depth_comparable st"
  "depth_comparable (cite a r st) = depth_comparable st"
  "depth_comparable (record_abstract a rep fl st) = depth_comparable st"
  by (simp_all add: depth_comparable_def)

lemma depth_comparable_kept:
  "depth_comparable (snd (pull_abstract R e depth report flags st)) = depth_comparable st"
  using expansion_frame(1)[of st R e depth report flags]
  by (simp add: frame_def depth_comparable_def)

lemma gate_comparable: "depth_comparable st \<Longrightarrow> \<exists>go. gate depth r st = Inr go"
  by (cases "target_depth st") (simp_all add: gate_def depth_comparable_def)

lemma no_exception_while_comparable:
  "depth_comparable st \<longrightarrow> fst (pull_abstract R e depth report flags st) = None"
  "depth_comparable st \<longrightarrow> (\<exists>a. AbstractRetrieval R e = Inr a) \<longrightarrow>
     fst (pull_abstract_try R e depth report flags st) = None"
  "depth_comparable st \<longrightarrow> fst (pull_references R a depth rs st) = None"
proof (induction R e depth report flags st and R e depth report flags st and R a depth rs st
      rule: pull_abstract_pull_abstract_try_pull_references.induct)
  case (1 R e depth report flags st)
  note IH = "1.IH"
  show ?case
  proof (intro impI)
    assume ok: "depth_comparable st"
    show "fst (pull_abstract R e depth report flags st) = None"
    proof (cases "is_repeat st e")
      case (Pair found match)
      show ?thesis
      proof (cases found)
        case False
        with Pair show ?thesis by (simp split: prod.splits option.splits)
      next
        case True
        with Pair is_repeat_match[of st e match] obtain m where m: "match = Some m" by auto
        with Pair True have eq: "(True, Some m) = is_repeat st e" by simp
        from IH(1)[OF eq refl refl] ok
        have "fst (pull_references R m depth (reference_list m) (emit (Call e depth) st)) = None"
          by simp
        with eq[symmetric] show ?thesis by simp
      qed
    qed
  qed
next
  case (2 R e depth report flags st)
  note IH = "2.IH"
  show ?case
  proof (intro impI)
    assume ok: "depth_comparable st" and "\<exists>a. AbstractRetrieval R e = Inr a"
    then obtain a where a: "AbstractRetrieval R e = Inr a" by auto
    from IH[OF a] ok a show "fst (pull_abstract_try R e depth report flags st) = None" by simp
  qed
next
  case (3 R a depth st)
  show ?case by simp
next
  case (4 R a depth r rs st)
  note IH = "4.IH"
  show ?case
  proof (intro impI)
    assume ok: "depth_comparable st"
    then have "depth_comparable (cite a r st)" by simp
    from gate_comparable[OF this] obtain go where go: "gate depth r (cite a r st) = Inr go" by auto
    show "fst (pull_references R a depth (r # rs) st) = None"
    proof (cases go)
      case True
      with go have g: "gate depth r (cite a r st) = Inr True" by simp
      from IH(1)[OF g refl] ok
      have n: "fst (pull_abstract R (eid_from_id (reference_id r)) (depth + 1) False
                      pull_abstract_flags (cite a r st)) = None" by simp
      then obtain st2 where p: "pull_abstract R (eid_from_id (reference_id r)) (depth + 1) False
                      pull_abstract_flags (cite a r st) = (None, st2)"
        by (cases "pull_abstract R (eid_from_id (reference_id r)) (depth + 1) False
                      pull_abstract_flags (cite a r st)") auto
      from depth_comparable_kept[of R "eid_from_id (reference_id r)" "depth + 1" False
          pull_abstract_flags "cite a r st"] p ok
      have ok2: "depth_comparable st2" by simp
      from IH(2)[OF g refl p[symmetric] refl] ok2
      have "fst (pull_references R a depth rs st2) = None" by simp
      with g p show ?thesis by simp
    next
      case False
      with go have g: "gate depth r (cite a r st) = Inr False" by simp
      from IH(3)[OF g refl] ok have "fst (pull_references R a depth rs (cite a r st)) = None" by simp
      with g show ?thesis by simp
    qed
  qed
qed

lemma loop_adds_edges:
  "fst (pull_references R a depth rs st) = None \<Longrightarrow> r \<in> set rs \<Longrightarrow>
   (eid a, eid_from_id (reference_id r))
     \<in> set (edge_list (citation_graph (snd (pull_references R a depth rs st))))"
proof (induction rs arbitrary: st)
  case Nil
  then show ?case by simp
next
  case (Cons r' rs)
  have here: "(eid a, eid_from_id (reference_id r')) \<in> set (edge_list (citation_graph (cite a r' st)))"
    by (simp add: cite_def)
  show ?case
  proof (cases "gate depth r' (cite a r' st)")
    case (Inl err)
    with Cons.prems(1) show ?thesis by simp
  next
    case (Inr go)
    show ?thesis
    proof (cases go)
      case True
      with Inr have g: "gate depth r' (cite a r' st) = Inr True" by simp
      obtain err st2 where p: "pull_abstract R (eid_from_id (reference_id r')) (depth + 1) False
                      pull_abstract_flags (cite a r' st) = (err, st2)"
        by (cases "pull_abstract R (eid_from_id (reference_id r')) (depth + 1) False
                      pull_abstract_flags (cite a r' st)") auto
      from Cons.prems(1) g p have err: "err = None" by (cases err) simp_all
      from g p err have eq: "pull_references R a depth (r' # rs) st = pull_references R a depth rs st2"
        by simp
      from expansion_edges(1)[of "cite a r' st" R "eid_from_id (reference_id r')" "depth + 1" False
          pull_abstract_flags] p here
      have in2: "(eid a, eid_from_id (reference_id r')) \<in> set (edge_list (citation_graph st2))"
        by auto
      show ?thesis
      proof (cases "r = r'")
        case True
        from expansion_edges(2)[of st2 R a depth rs] in2 True show ?thesis unfolding eq by auto
      next
        case False
        with Cons.prems(2) have "r \<in> set rs" by simp
        from Cons.IH[OF _ this, of st2] Cons.prems(1) show ?thesis unfolding eq by simp
      qed
    next
      case False
      with Inr have g: "gate depth r' (cite a r' st) = Inr False" by simp
      then have eq: "pull_references R a depth (r' # rs) st = pull_references R a depth rs (cite a r' st)"
        by simp
      show ?thesis
      proof (cases "r = r'")
        case True
        from expansion_edges(2)[of "cite a r' st" R a depth rs] here True show ?thesis
          unfolding eq by auto
      next
        case False
        with Cons.prems(2) have "r \<in> set rs" by simp
        from Cons.IH[OF _ this, of "cite a r' st"] Cons.prems(1) show ?thesis unfolding eq by simp
      qed
    qed
  qed
qed

lemma every_reference_cited:
  assumes "depth_comparable st" and "document_in_hand R st e = Some a"
    and "r \<in> set (reference_list a)"
  shows "fst (pull_abstract R e depth report flags st) = None \<and>
     (eid a, eid_from_id (reference_id r))
       \<in> set (edge_list (citation_graph (snd (pull_abstract R e depth report flags st))))"
proof (cases "is_repeat st e")
  case (Pair found match)
  show ?thesis
  proof (cases found)
    case True
    with Pair assms(2) have m: "match = Some a" by (simp add: document_in_hand_def)
    from no_exception_while_comparable(3)[of "emit (Call e depth) st" R a depth "reference_list a"]
      assms(1)
    have n: "fst (pull_references R a depth (reference_list a) (emit (Call e depth) st)) = None"
      by simp
    from loop_adds_edges[OF n assms(3)] n Pair True m show ?thesis by simp
  next
    case False
    with Pair assms(2) have f: "AbstractRetrieval R e = Inr a"
      by (simp add: document_in_hand_def split: sum.splits)
    let ?s = "record_abstract a report flags (emit (Fetch e) (emit (Call e depth) st))"
    from no_exception_while_comparable(3)[of ?s R a depth "reference_list a"] assms(1)
    have n: "fst (pull_references R a depth (reference_list a) ?s) = None" by simp
    then obtain st1 where p: "pull_references R a depth (reference_list a) ?s = (None, st1)"
      by (cases "pull_references R a depth (reference_list a) ?s") auto
    from loop_adds_edges[OF n assms(3)] p
    have "(eid a, eid_from_id (reference_id r)) \<in> set (edge_list (citation_graph st1))" by simp
    with Pair False f p show ?thesis by simp
  qed
qed

text \<open>
  C2 at a session whose \<open>target_depth\<close> holds a dict (the one
  \<open>pull_author\<close> left): \<open>pull_abstract('D1', 0)\<close> fetches \<open>D1\<close> and returns
  without an exception, \<open>r2\<close> is a reference of \<open>D1\<close>, and the citation graph has
  no edge from \<open>D1\<close> to the eid of \<open>r2\<close>: the TypeError raised at the first
  reference ended the loop.
\<close>

theorem interrupted_expansion_misses_edge:
  "fst (pull_abstract library ''D1'' 0 False add_document_flags after_pull_author) = None \<and>
   document_in_hand library after_pull_author ''D1'' = Some (paper ''D1'' [''r1'', ''r2'']) \<and>
   \<lparr>reference_id = ''r2''\<rparr> \<in> set (reference_list (paper ''D1'' [''r1'', ''r2''])) \<and>
   (''D1'', eid_from_id ''r2'') \<notin> set (edge_list (citation_graph
      (snd (pull_abstract library ''D1'' 0 False add_document_flags after_pull_author))))"
  by code_simp

section \<open>C4: what a failed pull leaves behind\<close>

text \<open>
  When the request to the remote source raises for an eid that is not stored, the session
  is left as it was but for the new entry of \<open>fails\<close> and the trace: the record store,
  both graphs and the flags dict are untouched, and no exception leaves the call.
\<close>

lemma failed_fetch_leaves_state:
  assumes "\<not> fst (is_repeat st x)" and "AbstractRetrieval R x = Inl err"
  shows "pull_abstract R x depth report flags st =
     (None, st\<lparr>fails := fails st @ [x],
               trace := trace st @ [Call x depth, Fetch x, Print (x @ '' failed to pull'')]\<rparr>)"
proof -
  from assms(1) obtain m where "is_repeat st x = (False, m)" by (cases "is_repeat st x") auto
  with assms(2) show ?thesis by (simp add: except_handler_def emit_def)
qed

text \<open>
  While \<open>target_depth\<close> is an int or False, that is the only way the processing of an
  eid can raise: no exception leaves \<open>pull_abstract\<close>; for an eid that is not stored,
  an exception in the \<open>try\<close> block is one of the request, and the session is left as
  just said; for a stored eid the loop over the references of the match raises nothing.
\<close>

lemma failed_pull_while_comparable:
  assumes "depth_comparable st"
  shows "fst (pull_abstract R x depth report flags st) = None"
    and "\<not> fst (is_repeat st x) \<Longrightarrow>
         fst (pull_abstract_try R x depth report flags (emit (Call x depth) st)) \<noteq> None \<Longrightarrow>
         (\<exists>err. AbstractRetrieval R x = Inl err) \<and>
         snd (pull_abstract R x depth report flags st) =
           st\<lparr>fails := fails st @ [x],
              trace := trace st @ [Call x depth, Fetch x, Print (x @ '' failed to pull'')]\<rparr>"
    and "fst (pull_references R m depth (reference_list m) (emit (Call x depth) st)) = None"
proof -
  from no_exception_while_comparable(1)[of st R x depth report flags] assms
  show "fst (pull_abstract R x depth report flags st) = None" by simp
  from no_exception_while_comparable(3)[of "emit (Call x depth) st" R m depth "reference_list m"] assms
  show "fst (pull_references R m depth (reference_list m) (emit (Call x depth) st)) = None" by simp
  show "(\<exists>err. AbstractRetrieval R x = Inl err) \<and>
         snd (pull_abstract R x depth report flags st) =
           st\<lparr>fails := fails st @ [x],
              trace := trace st @ [Call x depth, Fetch x, Print (x @ '' failed to pull'')]\<rparr>"
    if nf: "\<not> fst (is_repeat st x)"
      and raised: "fst (pull_abstract_try R x depth report flags (emit (Call x depth) st)) \<noteq> None"
  proof (cases "AbstractRetrieval R x")
    case (Inl err)
    from failed_fetch_leaves_state[OF nf Inl, of depth report flags] Inl show ?thesis by simp
  next
    case (Inr a)
    from no_exception_while_comparable(2)[of "emit (Call x depth) st" R x depth report flags]
      assms Inr
    have "fst (pull_abstract_try R x depth report flags (emit (Call x depth) st)) = None" by simp
    with raised show ?thesis by simp
  qed
qed

text \<open>
  A session whose \<open>target_depth\<close> holds a dict: what \<open>pull_author('A0', flags)\<close>
  leaves when \<open>flags\<close> is not empty.
\<close>

lemma after_pull_author_depth:
  "target_depth after_pull_author = ArgDict 7" "target_depth stored_then_dict = ArgDict 7"
  by code_simp+

text \<open>
  C4 at sessions whose \<open>target_depth\<close> holds a dict. In the first, \<open>D1\<close> is not
  stored and not in the citation graph: \<open>pull_abstract('D1', 0)\<close> gets its record, the
  comparison \<open>depth < self.target_depth\<close> then raises TypeError inside the \<open>try\<close>
  block, \<open>D1\<close> is put on \<open>fails\<close>, and yet its record is in the record store and its
  node has its attributes. In the second, \<open>D1\<close> is stored: the same TypeError is raised
  outside the \<open>try\<close> block, leaves \<open>pull_abstract\<close>, and \<open>fails\<close> stays empty.
\<close>

theorem late_error_keeps_record:
  "fst (pull_abstract_try library ''D1'' 0 False add_document_flags
          (emit (Call ''D1'' 0) after_pull_author)) = Some TypeError \<and>
   record_store after_pull_author = [] \<and>
   \<not> has_node (citation_graph after_pull_author) ''D1'' \<and>
   fst (pull_abstract library ''D1'' 0 False add_document_flags after_pull_author) = None \<and>
   fails (snd (pull_abstract library ''D1'' 0 False add_document_flags after_pull_author)) = [''D1''] \<and>
   map eid (record_store (snd (pull_abstract library ''D1'' 0 False add_document_flags
      after_pull_author))) = [''D1''] \<and>
   map_of (node_data (citation_graph (snd (pull_abstract library ''D1'' 0 False add_document_flags
      after_pull_author)))) ''D1'' = Some [(''attr'', DictRef add_document_flags)] \<and>
   fst (is_repeat stored_then_dict ''D1'') \<and>
   fails stored_then_dict = [] \<and>
   fst (pull_abstract library ''D1'' 0 False add_document_flags stored_then_dict) = Some TypeError \<and>
   fails (snd (pull_abstract library ''D1'' 0 False add_document_flags stored_then_dict)) = []"
  by code_simp

section \<open>C5: the attributes of a fetched node\<close>

text \<open>
  C5 at a fetch of \<open>D1\<close> with the flags \<open>{'initial': True}\<close>: the attribute dict of
  the node \<open>D1\<close> has the single key \<open>attr\<close>, whose value is the caller's dict object
  (now holding \<open>initial\<close> and \<open>year\<close>); the node has no key \<open>year\<close> and no key
  \<open>initial\<close> of its own, and \<open>get_nodes_with_attribute\<close> selects nothing by either.
\<close>

theorem flags_nested_under_attr:
  "map_of (node_data (citation_graph flagged_pull)) ''D1'' = Some [(''attr'', DictRef 7)] \<and>
   dict_store flagged_pull 7 = [(''initial'', PyBool True), (''year'', PyStr ''2020'')] \<and>
   get_nodes_with_attribute (citation_graph flagged_pull) ''year'' (PyStr ''2020'') = [] \<and>
   get_nodes_with_attribute (citation_graph flagged_pull) ''initial'' (PyBool True) = []"
  by code_simp

section \<open>C9: the quota summary of a new session\<close>

text \<open>
  C9 on a session that has made no request yet: \<open>__init__\<close> sets \<open>reset_time\<close> to
  the empty string, which is not None, so \<open>quotas\<close> hands it to
  \<open>datetime.fromisoformat\<close> and leaves with ValueError; nothing is printed.
\<close>

theorem quotas_raises_on_new_session:
  "quotas parse show_delta now (init docs st) = (Some ValueError, init docs st)"
  by (simp add: quotas_def init_def fromisoformat_def)

section \<open>C10: a second default session\<close>

text \<open>
  C10 at a second session constructed with the default argument after a first one pulled
  \<open>D1\<close>: its \<open>fails\<close>, both graphs and \<open>target_depth\<close> are as new, and its record
  store already holds the record of \<open>D1\<close>, because both sessions refer to the one list
  object made for the default \<open>documents = []\<close>.
\<close>

theorem default_documents_shared:
  "documents second_session = documents first_session \<and>
   map eid (record_store second_session) = [''D1''] \<and>
   fails second_session = [] \<and>
   citation_graph second_session = empty_graph \<and>
   authorship_graph second_session = empty_graph \<and>
   target_depth second_session = ArgInt 0"
proof -
  have "map eid (record_store second_session) = [''D1'']" by code_simp
  moreover have "documents second_session = documents first_session" by code_simp
  ultimately show ?thesis by (simp add: second_session_def init_def)
qed

section \<open>C6: a checkpoint read back\<close>







section \<open>C7: a checkpoint that does not load\<close>

text \<open>
  C7 as stated fails: the file \<open>k\<close> unpickles to a dict with the entry
  \<open>documents\<close> only. \<open>load_checkpoint('k')\<close> assigns \<open>self.documents\<close>, then
  \<open>content['authorship']\<close> raises KeyError; the session's record store, empty before,
  holds the record of the file afterwards.
\<close>

theorem partial_bundle_overwrites_counterexample:
  "fst (load_try ''k'' documents_only_session) = Some KeyError \<and>
   record_store documents_only_session = [] \<and>
   map eid (record_store (snd (load_checkpoint (Some ''k'') documents_only_session))) = [''D1'']"
  by code_simp

text \<open>What \<open>load_checkpoint\<close> returns for each kind of file that does not load.\<close>

lemma load_unreadable:
  assumes "files st (checkpoint_path k) = None \<or> files st (checkpoint_path k) = Some Corrupt"
  shows "load_checkpoint (Some k) st =
     (None, emit (Print (''Failed to load checkpoint with key '' @ k)) st)"
  using assms by (auto simp: load_checkpoint_def load_try_def)

lemma load_no_documents:
  assumes "files st (checkpoint_path k) = Some (Bundle None auth cit dicts bound)"
  shows "load_checkpoint (Some k) st =
     (None, emit (Print (''Failed to load checkpoint with key '' @ k))
              (unpickle_dicts dicts bound st))"
  using assms by (simp add: load_checkpoint_def load_try_def)

lemma load_no_authorship:
  assumes "files st (checkpoint_path k) = Some (Bundle (Some ds) None cit dicts bound)"
  shows "load_checkpoint (Some k) st =
     (None, emit (Print (''Failed to load checkpoint with key '' @ k))
              ((snd (new_list ds (unpickle_dicts dicts bound st)))
                 \<lparr>documents := fst (new_list ds (unpickle_dicts dicts bound st))\<rparr>))"
  using assms by (simp add: load_checkpoint_def load_try_def)

lemma load_no_citations:
  assumes "files st (checkpoint_path k) = Some (Bundle (Some ds) (Some ag) None dicts bound)"
  shows "load_checkpoint (Some k) st =
     (None, emit (Print (''Failed to load checkpoint with key '' @ k))
              ((snd (new_list ds (unpickle_dicts dicts bound st)))
                 \<lparr>documents := fst (new_list ds (unpickle_dicts dicts bound st)),
                  authorship_graph := ag\<rparr>))"
  using assms by (simp add: load_checkpoint_def load_try_def)

lemma load_cases:
  obtains (unreadable) "files st (checkpoint_path k) = None \<or> files st (checkpoint_path k) = Some Corrupt"
    | (no_documents) auth cit dicts bound where
        "files st (checkpoint_path k) = Some (Bundle None auth cit dicts bound)"
    | (no_authorship) ds cit dicts bound where
        "files st (checkpoint_path k) = Some (Bundle (Some ds) None cit dicts bound)"
    | (no_citations) ds ag dicts bound where
        "files st (checkpoint_path k) = Some (Bundle (Some ds) (Some ag) None dicts bound)"
    | (complete) ds ag cg dicts bound where
        "files st (checkpoint_path k) = Some (Bundle (Some ds) (Some ag) (Some cg) dicts bound)"
proof (cases "files st (checkpoint_path k)")
  case None
  then show ?thesis using unreadable by simp
next
  case (Some c)
  show ?thesis
  proof (cases c)
    case Corrupt
    with Some show ?thesis using unreadable by simp
  next
    case (Bundle docs auth cit dicts bound)
    show ?thesis
    proof (cases docs)
      case None
      with Some Bundle show ?thesis using no_documents by simp
    next
      case ds: (Some ds)
      show ?thesis
      proof (cases auth)
        case None
        with Some Bundle ds show ?thesis using no_authorship by simp
      next
        case ag: (Some ag)
        show ?thesis
        proof (cases cit)
          case None
          with Some Bundle ds ag show ?thesis using no_citations by simp
        next
          case cg: (Some cg)
          with Some Bundle ds ag show ?thesis using complete by simp
        qed
      qed
    qed
  qed
qed

text \<open>
  C7, as the code has it. \<open>load_checkpoint\<close> never lets an exception out. Whenever
  the file is not one that unpickles to a dict with all three entries, it prints the
  failure, and the citation graph and every dict object of the session stay as they were.
  When the file is missing, does not unpickle, or has no entry \<open>documents\<close> (the first
  one read), the documents list, the records and the authorship graph stay as well. When
  the dict has \<open>documents\<close> and no \<open>authorship\<close>, the records are those of the file
  and the authorship graph stays; when it has both and no \<open>citations\<close>, the records
  and the authorship graph are those of the file.
\<close>

theorem load_failure_leaves_session:
  "fst (load_checkpoint key st) = None \<and>
   ((\<forall>ds ag cg dicts bound. files st (checkpoint_path k)
        \<noteq> Some (Bundle (Some ds) (Some ag) (Some cg) dicts bound)) \<longrightarrow>
      trace (snd (load_checkpoint (Some k) st)) =
        trace st @ [Print (''Failed to load checkpoint with key '' @ k)] \<and>
      citation_graph (snd (load_checkpoint (Some k) st)) = citation_graph st \<and>
      (\<forall>r<next_ref st. dict_store (snd (load_checkpoint (Some k) st)) r = dict_store st r)) \<and>
   (files st (checkpoint_path k) = None \<or> files st (checkpoint_path k) = Some Corrupt \<or>
    (\<exists>auth cit dicts bound. files st (checkpoint_path k) = Some (Bundle None auth cit dicts bound)) \<longrightarrow>
      documents (snd (load_checkpoint (Some k) st)) = documents st \<and>
      record_store (snd (load_checkpoint (Some k) st)) = record_store st \<and>
      authorship_graph (snd (load_checkpoint (Some k) st)) = authorship_graph st) \<and>
   (\<forall>ds cit dicts bound.
      files st (checkpoint_path k) = Some (Bundle (Some ds) None cit dicts bound) \<longrightarrow>
      record_store (snd (load_checkpoint (Some k) st)) = ds \<and>
      authorship_graph (snd (load_checkpoint (Some k) st)) = authorship_graph st) \<and>
   (\<forall>ds ag dicts bound.
      files st (checkpoint_path k) = Some (Bundle (Some ds) (Some ag) None dicts bound) \<longrightarrow>
      record_store (snd (load_checkpoint (Some k) st)) = ds \<and>
      authorship_graph (snd (load_checkpoint (Some k) st)) = ag)"
proof -
  have quiet: "fst (load_checkpoint key st) = None"
    by (simp add: load_checkpoint_def split: option.splits prod.splits)
  have reported: "trace (snd (load_checkpoint (Some k) st)) =
        trace st @ [Print (''Failed to load checkpoint with key '' @ k)] \<and>
      citation_graph (snd (load_checkpoint (Some k) st)) = citation_graph st \<and>
      (\<forall>r<next_ref st. dict_store (snd (load_checkpoint (Some k) st)) r = dict_store st r)"
    if partial: "\<forall>ds ag cg dicts bound. files st (checkpoint_path k)
        \<noteq> Some (Bundle (Some ds) (Some ag) (Some cg) dicts bound)"
  proof (cases rule: load_cases[of st k])
    case unreadable
    from load_unreadable[OF this] show ?thesis by (simp add: emit_def)
  next
    case (no_documents auth cit dicts bound)
    from load_no_documents[OF this] show ?thesis by (simp add: emit_def unpickle_dicts_def)
  next
    case (no_authorship ds cit dicts bound)
    from load_no_authorship[OF this] show ?thesis
      by (simp add: emit_def unpickle_dicts_def new_list_def)
  next
    case (no_citations ds ag dicts bound)
    from load_no_citations[OF this] show ?thesis
      by (simp add: emit_def unpickle_dicts_def new_list_def)
  next
    case (complete ds ag cg dicts bound)
    with partial show ?thesis by simp
  qed
  have kept: "documents (snd (load_checkpoint (Some k) st)) = documents st \<and>
      record_store (snd (load_checkpoint (Some k) st)) = record_store st \<and>
      authorship_graph (snd (load_checkpoint (Some k) st)) = authorship_graph st"
    if "files st (checkpoint_path k) = None \<or> files st (checkpoint_path k) = Some Corrupt \<or>
        (\<exists>auth cit dicts bound. files st (checkpoint_path k) = Some (Bundle None auth cit dicts bound))"
  proof -
    from that consider
        (unreadable) "files st (checkpoint_path k) = None \<or> files st (checkpoint_path k) = Some Corrupt"
      | (no_documents) auth cit dicts bound where
          "files st (checkpoint_path k) = Some (Bundle None auth cit dicts bound)"
      by auto
    then show ?thesis
    proof cases
      case unreadable
      from load_unreadable[OF this] show ?thesis by (simp add: emit_def record_store_def)
    next
      case no_documents
      from load_no_documents[OF this] show ?thesis
        by (simp add: emit_def record_store_def unpickle_dicts_def)
    qed
  qed
  have first_only: "record_store (snd (load_checkpoint (Some k) st)) = ds \<and>
      authorship_graph (snd (load_checkpoint (Some k) st)) = authorship_graph st"
    if "files st (checkpoint_path k) = Some (Bundle (Some ds) None cit dicts bound)"
    for ds cit dicts bound
    using load_no_authorship[OF that]
    by (simp add: emit_def record_store_def unpickle_dicts_def new_list_def)
  have first_two: "record_store (snd (load_checkpoint (Some k) st)) = ds \<and>
      authorship_graph (snd (load_checkpoint (Some k) st)) = ag"
    if "files st (checkpoint_path k) = Some (Bundle (Some ds) (Some ag) None dicts bound)"
    for ds ag dicts bound
    using load_no_citations[OF that]
    by (simp add: emit_def record_store_def unpickle_dicts_def new_list_def)
  from quiet reported kept first_only first_two show ?thesis by blast
qed

lemma two_pulled_no_file: "files two_pulled (checkpoint_path ''k'') = None"
  by code_simp

lemma unloadable_files:
  "files corrupt_file_session (checkpoint_path ''k'') = Some Corrupt"
  "files no_documents_session (checkpoint_path ''k'') =
     Some (Bundle None (Some empty_graph) (Some empty_graph) (\<lambda>r. []) 0)"
  "files documents_only_session (checkpoint_path ''k'') =
     Some (Bundle (Some [paper ''D1'' []]) None None (\<lambda>r. []) 0)"
  "files no_citations_session (checkpoint_path ''k'') =
     Some (Bundle (Some [paper ''D3'' []]) (Some empty_graph) None (\<lambda>r. []) 0)"
  by (simp_all add: corrupt_file_session_def no_documents_session_def
      documents_only_session_def no_citations_session_def with_file_def)

lemma two_pulled_not_empty:
  "map eid (record_store two_pulled) = [''D1'', ''D2'']"
  "authorship_graph two_pulled \<noteq> empty_graph"
  by code_simp+

theorem load_failure_leaves_session_witness:
  "fst (load_checkpoint None two_pulled) = None \<and>
   files two_pulled (checkpoint_path ''k'') = None \<and>
   record_store (snd (load_checkpoint (Some ''k'') two_pulled)) = record_store two_pulled \<and>
   citation_graph (snd (load_checkpoint (Some ''k'') two_pulled)) = citation_graph two_pulled \<and>
   trace (snd (load_checkpoint (Some ''k'') two_pulled)) =
     trace two_pulled @ [Print (''Failed to load checkpoint with key '' @ ''k'')] \<and>
   record_store (snd (load_checkpoint (Some ''k'') corrupt_file_session))
     = record_store corrupt_file_session \<and>
   record_store (snd (load_checkpoint (Some ''k'') no_documents_session))
     = record_store no_documents_session \<and>
   authorship_graph (snd (load_checkpoint (Some ''k'') no_documents_session))
     = authorship_graph no_documents_session \<and>
   record_store (snd (load_checkpoint (Some ''k'') documents_only_session)) = [paper ''D1'' []] \<and>
   authorship_graph (snd (load_checkpoint (Some ''k'') documents_only_session))
     = authorship_graph documents_only_session \<and>
   trace (snd (load_checkpoint (Some ''k'') documents_only_session)) =
     trace documents_only_session @ [Print (''Failed to load checkpoint with key '' @ ''k'')] \<and>
   record_store (snd (load_checkpoint (Some ''k'') no_citations_session)) = [paper ''D3'' []] \<and>
   authorship_graph (snd (load_checkpoint (Some ''k'') no_citations_session)) = empty_graph \<and>
   citation_graph (snd (load_checkpoint (Some ''k'') no_citations_session))
     = citation_graph no_citations_session \<and>
   map eid (record_store two_pulled) = [''D1'', ''D2'']"
  using load_failure_leaves_session[where st = two_pulled and k = "''k''" and key = None]
    load_failure_leaves_session[where st = corrupt_file_session and k = "''k''" and key = None]
    load_failure_leaves_session[where st = no_documents_session and k = "''k''" and key = None]
    load_failure_leaves_session[where st = documents_only_session and k = "''k''" and key = None]
    load_failure_leaves_session[where st = no_citations_session and k = "''k''" and key = None]
    two_pulled_no_file unloadable_files two_pulled_not_empty(1)
  by simp

section \<open>C8: the distance from the initial sample\<close>

lemma fold_max_ge_init: "(a::nat) \<le> fold max xs a"
proof (induction xs arbitrary: a)
  case Nil
  show ?case by simp
next
  case (Cons x xs)
  have "a \<le> max x a" by simp
  also have "max x a \<le> fold max xs (max x a)" by (rule Cons.IH)
  finally show ?case by simp
qed

lemma fold_max_ge: "x \<in> set xs \<Longrightarrow> (x::nat) \<le> fold max xs a"
proof (induction xs arbitrary: a)
  case Nil
  then show ?case by simp
next
  case (Cons y ys)
  show ?case
  proof (cases "x = y")
    case True
    have "x \<le> max y a" using True by simp
    also have "max y a \<le> fold max ys (max y a)" by (rule fold_max_ge_init)
    finally show ?thesis by simp
  next
    case False
    with Cons.prems have "x \<in> set ys" by simp
    from Cons.IH[OF this] show ?thesis by simp
  qed
qed

lemma has_node_iff: "has_node g n \<longleftrightarrow> n \<in> fst ` set (node_data g)"
  by (simp add: has_node_def map_of_eq_None_iff)

lemma distance_listed:
  assumes "has_node g s" and "has_node g t"
  shows "shortest_path_length g s t \<in> set (all_distances g)"
proof -
  from assms obtain ps pt where s: "(s, ps) \<in> set (node_data g)" and t: "(t, pt) \<in> set (node_data g)"
    by (auto simp: has_node_iff)
  have "shortest_path_length g s t \<in> (\<lambda>p. shortest_path_length g s (fst p)) ` set (node_data g)"
    using t by (rule rev_image_eqI) simp
  then have "\<exists>q\<in>set (node_data g).
      shortest_path_length g s t \<in> (\<lambda>p. shortest_path_length g (fst q) (fst p)) ` set (node_data g)"
    using s by (intro bexI[where x = "(s, ps)"]) simp_all
  then show ?thesis by (simp add: all_distances_def comp_def)
qed

lemma diameter_bounds:
  assumes "diameter g = Inr D" and "has_node g s" and "has_node g t"
  shows "\<exists>k. shortest_path_length g s t = Inr k \<and> k \<le> D"
proof -
  from assms(1) have ok: "\<not> list_ex isl (all_distances g)"
    and D: "D = fold max (map projr (all_distances g)) 0"
    by (simp_all add: diameter_def split: if_splits)
  have m: "shortest_path_length g s t \<in> set (all_distances g)"
    using assms(2,3) by (rule distance_listed)
  with ok have "\<not> isl (shortest_path_length g s t)" by (simp add: list_ex_iff)
  then obtain k where k: "shortest_path_length g s t = Inr k"
    by (cases "shortest_path_length g s t") auto
  from m have "projr (shortest_path_length g s t) \<in> set (map projr (all_distances g))"
    by simp
  with k have "k \<in> set (map projr (all_distances g))" by simp
  then have "k \<le> D" unfolding D by (rule fold_max_ge)
  with k show ?thesis by simp
qed

lemma seeds_are_nodes: "s \<in> set (get_nodes_with_attribute g a v) \<Longrightarrow> has_node g s"
  by (auto simp: get_nodes_with_attribute_def has_node_iff)

lemma self_distance:
  assumes "has_node g n"
  shows "shortest_path_length g n n = Inr 0"
proof -
  from assms have "node_data g \<noteq> []" by (auto simp: has_node_iff)
  then have "0 < length (node_data g)" by simp
  then have "[0..<length (node_data g)] = 0 # [Suc 0..<length (node_data g)]"
    by (rule upt_conv_Cons)
  with assms show ?thesis by (simp add: shortest_path_length_def)
qed

lemma fold_closer_bounded:
  assumes "\<forall>s\<in>set seeds. \<exists>k. shortest_path_length g s t = Inr k"
  shows "\<exists>d'. fold (closer g t) seeds (Inr d) = Inr d' \<and> d' \<le> d"
  using assms
proof (induction seeds arbitrary: d)
  case Nil
  show ?case by simp
next
  case (Cons s seeds)
  from Cons.prems obtain k where k: "shortest_path_length g s t = Inr k" by auto
  from Cons.prems have "\<forall>s\<in>set seeds. \<exists>k. shortest_path_length g s t = Inr k" by simp
  from Cons.IH[OF this, of "min d k"] obtain d' where
    "fold (closer g t) seeds (Inr (min d k)) = Inr d'" "d' \<le> min d k" by auto
  with k show ?case by simp
qed

lemma fold_closer_zero:
  assumes "\<forall>s\<in>set seeds. \<exists>k. shortest_path_length g s t = Inr k"
    and "t \<in> set seeds" and "shortest_path_length g t t = Inr 0"
  shows "fold (closer g t) seeds (Inr d) = Inr 0"
  using assms
proof (induction seeds arbitrary: d)
  case Nil
  then show ?case by simp
next
  case (Cons s seeds)
  from Cons.prems(1) have rest: "\<forall>s\<in>set seeds. \<exists>k. shortest_path_length g s t = Inr k" by simp
  show ?case
  proof (cases "s = t")
    case True
    from fold_closer_bounded[OF rest, of 0] obtain d' where
      "fold (closer g t) seeds (Inr 0) = Inr d'" "d' \<le> 0" by auto
    with True Cons.prems(3) show ?thesis by simp
  next
    case False
    with Cons.prems(2) have t: "t \<in> set seeds" by simp
    from Cons.prems(1) obtain k where k: "shortest_path_length g s t = Inr k" by auto
    from Cons.IH[OF rest t Cons.prems(3), of "min d k"] k show ?thesis by simp
  qed
qed

lemma fold_closer_raised: "fold (closer g t) seeds (Inl err) = Inl err"
  by (induction seeds) simp_all

text \<open>
  On a graph with a diameter \<open>D\<close> (not empty, its undirected view connected) the
  function does what its docstring says within the bound it starts from: for every node
  of the graph it returns a number that is at most \<open>D\<close>, and 0 for a node whose own
  attribute dict has \<open>initial = True\<close>. Without a diameter it raises what
  \<open>nx.diameter\<close> raises, whatever the seeds are.
\<close>

lemma distance_within_diameter:
  assumes "diameter (citation_graph st) = Inr D" and "has_node (citation_graph st) node_id"
  shows "(\<exists>d. distance_from_initial_sample st node_id = Inr d \<and> d \<le> D) \<and>
     (node_id \<in> set (get_nodes_with_attribute (citation_graph st) ''initial'' (PyBool True)) \<longrightarrow>
        distance_from_initial_sample st node_id = Inr 0)"
proof -
  let ?g = "citation_graph st"
  let ?seeds = "get_nodes_with_attribute ?g ''initial'' (PyBool True)"
  have all: "\<forall>s\<in>set ?seeds. \<exists>k. shortest_path_length ?g s node_id = Inr k"
  proof
    fix s assume "s \<in> set ?seeds"
    then have "has_node ?g s" by (rule seeds_are_nodes)
    from diameter_bounds[OF assms(1) this assms(2)]
    show "\<exists>k. shortest_path_length ?g s node_id = Inr k" by auto
  qed
  have first: "\<exists>d. distance_from_initial_sample st node_id = Inr d \<and> d \<le> D"
    using fold_closer_bounded[OF all, of D] assms(1)
    by (simp add: distance_from_initial_sample_def)
  have second: "distance_from_initial_sample st node_id = Inr 0" if "node_id \<in> set ?seeds"
    using fold_closer_zero[OF all that self_distance[OF assms(2)], of D] assms(1)
    by (simp add: distance_from_initial_sample_def)
  from first second show ?thesis by simp
qed

lemma distance_raises_without_diameter:
  "diameter (citation_graph st) = Inl err \<Longrightarrow> distance_from_initial_sample st node_id = Inl err"
  by (simp add: distance_from_initial_sample_def fold_closer_raised)

lemma seeded_session_distance:
  "diameter (citation_graph seeded_session) = Inr 1"
  "distance_from_initial_sample seeded_session ''S'' = Inr 0"
  "distance_from_initial_sample seeded_session ''X'' = Inr 1"
  by code_simp+

text \<open>
  C8 at a citation graph that is not connected: \<open>S\<close> is a seed, \<open>X\<close> cites it, and
  \<open>Y\<close> is a node no edge touches. \<open>nx.diameter\<close> raises NetworkXError before any
  seed is looked at, so \<open>distance_from_initial_sample\<close> raises for the seed \<open>S\<close>
  itself and for \<open>X\<close>, which is one step from the seed; the same in a session that
  loaded this graph from a checkpoint. And in the session that pulled \<open>D1\<close> with the
  flags \<open>{'initial': True}\<close> no node is a seed, and the distance of \<open>D1\<close> is the
  diameter 2.
\<close>

theorem seed_distance_raises:
  "get_nodes_with_attribute (citation_graph split_session) ''initial'' (PyBool True) = [''S''] \<and>
   edge_list (citation_graph split_session) = [(''X'', ''S'')] \<and>
   distance_from_initial_sample split_session ''S'' = Inl NetworkXError \<and>
   distance_from_initial_sample split_session ''X'' = Inl NetworkXError \<and>
   node_data (citation_graph split_graph_loaded) = node_data (citation_graph split_session) \<and>
   edge_list (citation_graph split_graph_loaded) = edge_list (citation_graph split_session) \<and>
   distance_from_initial_sample split_graph_loaded ''S'' = Inl NetworkXError \<and>
   get_nodes_with_attribute (citation_graph flagged_pull) ''initial'' (PyBool True) = [] \<and>
   distance_from_initial_sample flagged_pull ''D1'' = Inr 2"
  by code_simp

end
